theory Spec2Isabelle
  imports Main
begin

section \<open>Python strings\<close>

text \<open>
  A Python \<open>str\<close> is a sequence of Unicode code points, and \<open>len\<close>, slicing and
  \<open>strip\<close> all work on code points. A string is therefore modelled as a list of code
  points (natural numbers); \<open>u\<close> turns an ASCII literal of the source into that form.
\<close>

type_synonym ustring = "nat list"

definition u :: "string \<Rightarrow> ustring" where
  "u s = map of_char s"

text \<open>
  The characters \<open>str.strip()\<close> removes when called without argument: those for which
  CPython's \<open>Py_UNICODE_ISSPACE\<close> holds (U+0009..U+000D, U+001C..U+0020, U+0085, U+00A0,
  U+1680, U+2000..U+200A, U+2028, U+2029, U+202F, U+205F, U+3000).
\<close>

definition isspace :: "nat \<Rightarrow> bool" where
  "isspace c =
     ((9 \<le> c \<and> c \<le> 13) \<or> (28 \<le> c \<and> c \<le> 32) \<or> c = 133 \<or> c = 160 \<or> c = 5760 \<or>
      (8192 \<le> c \<and> c \<le> 8202) \<or> c = 8232 \<or> c = 8233 \<or> c = 8239 \<or> c = 8287 \<or> c = 12288)"

definition lstrip :: "ustring \<Rightarrow> ustring" where
  "lstrip s = dropWhile isspace s"

definition rstrip :: "ustring \<Rightarrow> ustring" where
  "rstrip s = rev (dropWhile isspace (rev s))"

text \<open>\<open>s.strip()\<close>\<close>

definition strip :: "ustring \<Rightarrow> ustring" where
  "strip s = rstrip (lstrip s)"

text \<open>\<open>s.lstrip(chars)\<close> and \<open>s.strip(chars)\<close>: \<open>chars\<close> is a set of characters.\<close>

definition lstrip_chars :: "ustring \<Rightarrow> ustring \<Rightarrow> ustring" where
  "lstrip_chars s chars = dropWhile (\<lambda>c. c \<in> set chars) s"

definition rstrip_chars :: "ustring \<Rightarrow> ustring \<Rightarrow> ustring" where
  "rstrip_chars s chars = rev (dropWhile (\<lambda>c. c \<in> set chars) (rev s))"

definition strip_chars :: "ustring \<Rightarrow> ustring \<Rightarrow> ustring" where
  "strip_chars s chars = rstrip_chars (lstrip_chars s chars) chars"

text \<open>\<open>s.startswith(p)\<close>\<close>

definition startswith :: "ustring \<Rightarrow> ustring \<Rightarrow> bool" where
  "startswith s p = (take (length p) s = p)"

text \<open>
  \<open>s.split(sep)\<close> scans from the left for non-overlapping occurrences of \<open>sep\<close> and
  always returns at least one piece; an empty separator raises \<open>ValueError\<close>.
  \<open>split_from sep cur rest\<close> is the scan, \<open>cur\<close> being the piece collected so far.
\<close>

datatype error = ValueError | KeyError ustring | JSONDecodeError

function split_from :: "ustring \<Rightarrow> ustring \<Rightarrow> ustring \<Rightarrow> ustring list" where
  "split_from sep cur [] = [cur]"
| "split_from sep cur (c # cs) =
     (if sep \<noteq> [] \<and> startswith (c # cs) sep
      then cur # split_from sep [] (drop (length sep) (c # cs))
      else split_from sep (cur @ [c]) cs)"
  by pat_completeness auto
termination
  by (relation "measure (\<lambda>(sep, cur, s). length s)") auto

definition py_split :: "ustring \<Rightarrow> ustring \<Rightarrow> error + ustring list" where
  "py_split s sep = (if sep = [] then Inl ValueError else Inr (split_from sep [] s))"

text \<open>\<open>str(n)\<close> for an integer, as an f-string renders it.\<close>

function str_nat :: "nat \<Rightarrow> ustring" where
  "str_nat n = (if n < 10 then [48 + n] else str_nat (n div 10) @ [48 + n mod 10])"
  by pat_completeness auto
termination
  by (relation "measure id") auto

declare str_nat.simps [simp del]

definition py_str :: "int \<Rightarrow> ustring" where
  "py_str i = (if i < 0 then 45 # str_nat (nat (- i)) else str_nat (nat i))"

section \<open>The clock\<close>

text \<open>
  \<open>datetime.now()\<close> reads the system clock. A reading is a value of this record; each
  function that reads the clock takes the reading as an argument.
  \<open>strftime\<close> is \<open>strftime('%Y-%m-%d %H:%M')\<close>: each field in decimal, zero-padded to
  its width. (Whether \<open>%Y\<close> pads a year below 1000 is the C library's choice; no
  result below depends on it.)
\<close>

record datetime =
  year :: nat
  month :: nat
  day :: nat
  hour :: nat
  minute :: nat
  second :: nat
  microsecond :: nat

definition zpad :: "nat \<Rightarrow> nat \<Rightarrow> ustring" where
  "zpad w n = replicate (w - length (str_nat n)) 48 @ str_nat n"

definition strftime :: "datetime \<Rightarrow> ustring" where
  "strftime t =
     zpad 4 (year t) @ u ''-'' @ zpad 2 (month t) @ u ''-'' @ zpad 2 (day t) @ u '' '' @
     zpad 2 (hour t) @ u '':'' @ zpad 2 (minute t)"

section \<open>The note formatter\<close>

text \<open>
  A block is the dictionary the formatter builds:
  \<open>{"object": "block", "type": T, T: {"rich_text": [{"type": "text", "text": {"content": C}}]}}\<close>.
  Only \<open>T\<close> and \<open>C\<close> vary, so a block is the pair of them.
\<close>

datatype block = Block (block_type: ustring) (block_content: ustring)

text \<open>
  The test for a bullet prefix, written \<open>s.startswith('- ') or s.startswith('* ')\<close> for
  a paragraph and \<open>s.startswith(('- ', '* '))\<close> for a line.
\<close>

definition bullet_prefixed :: "ustring \<Rightarrow> bool" where
  "bullet_prefixed s = (startswith s (u ''- '') \<or> startswith s (u ''* ''))"

text \<open>The inner loop of \<open>_format_notes_as_blocks\<close>, over the lines of a list paragraph.\<close>

fun bullet_loop :: "block list \<Rightarrow> ustring list \<Rightarrow> block list" where
  "bullet_loop blocks [] = blocks"
| "bullet_loop blocks (line # lines) =
     bullet_loop
       (if bullet_prefixed (strip line)
        then blocks @ [Block (u ''bulleted_list_item'') (drop 2 (strip line))]
        else blocks)
       lines"

text \<open>One iteration of the outer loop: what the body does to \<open>blocks\<close> for one \<open>para\<close>.\<close>

definition para_step :: "block list \<Rightarrow> ustring \<Rightarrow> error + block list" where
  "para_step blocks para =
     (if strip para \<noteq> [] then
        if bullet_prefixed (strip para) then
          (case py_split (strip para) (u ''\<newline>'') of
             Inl e \<Rightarrow> Inl e
           | Inr lines \<Rightarrow> Inr (bullet_loop blocks lines))
        else if startswith (strip para) (u ''#'') then
          (let level = int (length para) - int (length (lstrip_chars para (u ''#'')));
               heading_type = u ''heading_'' @ py_str (min level 3)
           in Inr (blocks @ [Block heading_type (strip (strip_chars para (u ''#'')))]))
        else Inr (blocks @ [Block (u ''paragraph'') (strip para)])
      else Inr blocks)"

fun para_loop :: "block list \<Rightarrow> ustring list \<Rightarrow> error + block list" where
  "para_loop blocks [] = Inr blocks"
| "para_loop blocks (para # paragraphs) =
     (case para_step blocks para of
        Inl e \<Rightarrow> Inl e
      | Inr blocks' \<Rightarrow> para_loop blocks' paragraphs)"

text \<open>
  \<open>_format_notes_as_blocks(self, notes)\<close>. The function calls \<open>datetime.now()\<close> itself;
  \<open>now\<close> is what that call returned.
\<close>

definition timestamp_heading :: "datetime \<Rightarrow> block" where
  "timestamp_heading now =
     Block (u ''heading_3'') (u ''Created by Claude Code - '' @ strftime now)"

definition format_notes_as_blocks :: "datetime \<Rightarrow> ustring \<Rightarrow> error + block list" where
  "format_notes_as_blocks now notes =
     (let blocks = [timestamp_heading now]
      in case py_split (strip notes) (u ''\<newline>\<newline>'') of
           Inl e \<Rightarrow> Inl e
         | Inr paragraphs \<Rightarrow> para_loop blocks paragraphs)"

section \<open>Creating pages\<close>

text \<open>
  The configuration a \<open>NotionIntegration\<close> object holds: \<open>__init__\<close> has read the token
  and the default database from it, so both are there; \<open>default_tags\<close> is looked up only
  when a page is created and may be absent from the file (\<open>None\<close>).
\<close>

record config =
  notion_api_token :: ustring
  default_database_id :: ustring
  default_tags :: "ustring list option"

text \<open>
  \<open>page_data\<close>, the body of the request that creates the page: the parent database, the
  title and the names of the \<open>multi_select\<close> tags, in order.
\<close>

record page_data =
  parent_database_id :: ustring
  page_title :: ustring
  tag_names :: "ustring list"

text \<open>
  The two requests sent: \<open>POST /pages\<close> with the page data, and
  \<open>PATCH /blocks/<page_id>/children\<close> with the blocks. A response has a status code, a
  text, and the fields of its JSON body when it has one.
\<close>

datatype request = PostPages page_data | PatchChildren ustring "block list"

record response =
  status_code :: int
  text_of :: ustring
  json :: "(ustring \<times> ustring) list option"

text \<open>What \<open>create_page_with_notes\<close> returns: the error dictionary or the success one.\<close>

datatype result =
  Failure ustring
| Created (result_page_id: ustring) (result_url: ustring) (result_title: ustring)
    (result_message: ustring)

text \<open>
  \<open>create_page_with_notes(self, title, notes, tags=None)\<close>. \<open>http\<close> is the server, \<open>now\<close>
  the clock reading the formatter makes. The function returns what the source returns
  or raises, together with the requests it has sent, in order.
\<close>

definition create_page_with_notes ::
  "config \<Rightarrow> (request \<Rightarrow> response) \<Rightarrow> datetime \<Rightarrow> ustring \<Rightarrow> ustring \<Rightarrow> ustring list option
     \<Rightarrow> (error + result) \<times> request list" where
  "create_page_with_notes cfg http now title notes tags =
     (case (case tags of
              Some (t # ts) \<Rightarrow> Inr (t # ts)
            | _ \<Rightarrow> (case default_tags cfg of
                      None \<Rightarrow> Inl (KeyError (u ''default_tags''))
                    | Some d \<Rightarrow> Inr d)) of
        Inl e \<Rightarrow> (Inl e, [])
      | Inr tags' \<Rightarrow>
          (let page_data = \<lparr>parent_database_id = default_database_id cfg,
                            page_title = title, tag_names = tags'\<rparr>;
               response = http (PostPages page_data)
           in if status_code response \<noteq> 200
              then (Inr (Failure (u ''Failed to create page: '' @ text_of response)),
                    [PostPages page_data])
              else
                (case json response of
                   None \<Rightarrow> (Inl JSONDecodeError, [PostPages page_data])
                 | Some page \<Rightarrow>
                     (case map_of page (u ''id'') of
                        None \<Rightarrow> (Inl (KeyError (u ''id'')), [PostPages page_data])
                      | Some page_id \<Rightarrow>
                          (case format_notes_as_blocks now notes of
                             Inl e \<Rightarrow> (Inl e, [PostPages page_data])
                           | Inr blocks \<Rightarrow>
                               (let sent = [PostPages page_data, PatchChildren page_id blocks];
                                    response' = http (PatchChildren page_id blocks)
                                in if status_code response' \<noteq> 200
                                   then (Inr (Failure (u ''Failed to add notes: '' @ text_of response')),
                                         sent)
                                   else
                                     (case map_of page (u ''url'') of
                                        None \<Rightarrow> (Inl (KeyError (u ''url'')), sent)
                                      | Some url \<Rightarrow>
                                          (Inr (Created page_id url title
                                                  (u ''Created page '' @ [39] @ title @ [39] @
                                                   u '' with notes'')),
                                           sent))))))))"

text \<open>
  \<open>quick_note(self, content)\<close>. \<open>now_title\<close> is the clock reading made for the title
  (only when the first line is too long), \<open>now\<close> the later one of the formatter.
\<close>

definition quick_note ::
  "config \<Rightarrow> (request \<Rightarrow> response) \<Rightarrow> datetime \<Rightarrow> datetime \<Rightarrow> ustring
     \<Rightarrow> (error + result) \<times> request list" where
  "quick_note cfg http now_title now content =
     (case py_split (strip content) (u ''\<newline>'') of
        Inl e \<Rightarrow> (Inl e, [])
      | Inr lines \<Rightarrow>
          (let title =
             (case lines of
                [] \<Rightarrow> u ''Quick Note - '' @ strftime now_title
              | line0 # _ \<Rightarrow>
                  if length line0 < 100
                  then (if length line0 > 50 then take 50 line0 @ u ''...'' else line0)
                  else u ''Quick Note - '' @ strftime now_title)
           in create_page_with_notes cfg http now title content
                (Some [u ''DAILY'', u ''PRODUCTIVITY''])))"

section \<open>Notions used to state the properties\<close>

text \<open>The paragraphs the outer loop runs over, and the lines of a list paragraph.\<close>

definition paragraphs_of :: "ustring \<Rightarrow> ustring list" where
  "paragraphs_of notes = split_from (u ''\<newline>\<newline>'') [] (strip notes)"

definition lines_of :: "ustring \<Rightarrow> ustring list" where
  "lines_of para = split_from (u ''\<newline>'') [] (strip para)"

text \<open>The blocks one paragraph contributes: what the loop body appends for it.\<close>

definition para_blocks :: "ustring \<Rightarrow> block list" where
  "para_blocks para = (case para_step [] para of Inr blocks \<Rightarrow> blocks | Inl e \<Rightarrow> [])"

text \<open>
  A string of the shape of a pattern, in which \<open>9\<close> stands for any decimal digit and
  every other character for itself.
\<close>

definition isdigit :: "nat \<Rightarrow> bool" where
  "isdigit c = (48 \<le> c \<and> c \<le> 57)"

fun has_shape :: "string \<Rightarrow> ustring \<Rightarrow> bool" where
  "has_shape [] [] = True"
| "has_shape (p # ps) (c # cs) =
     ((if p = CHR ''9'' then isdigit c else c = of_char p) \<and> has_shape ps cs)"
| "has_shape _ _ = False"

text \<open>The first line of the trimmed content, as \<open>quick_note\<close> finds it.\<close>

definition first_line :: "ustring \<Rightarrow> ustring" where
  "first_line content = takeWhile (\<lambda>c. c \<noteq> 10) (strip content)"

text \<open>Stripping, from both ends, the characters that satisfy a predicate.\<close>

definition strip_with :: "(nat \<Rightarrow> bool) \<Rightarrow> ustring \<Rightarrow> ustring" where
  "strip_with P s = rev (dropWhile P (rev (dropWhile P s)))"

text \<open>
  The heading text in the specification's words: the paragraph with all leading and
  trailing \<open>#\<close> characters and whitespace stripped.
\<close>

definition spec_heading_text :: "ustring \<Rightarrow> ustring" where
  "spec_heading_text para = strip_with (\<lambda>c. c = 35 \<or> isspace c) para"

text \<open>A configuration and a server that accepts every request, used in the examples.\<close>

definition cfg0 :: config where
  "cfg0 = \<lparr>notion_api_token = u ''secret'', default_database_id = u ''db'',
           default_tags = Some [u ''NOTES'']\<rparr>"

definition http_ok :: "request \<Rightarrow> response" where
  "http_ok r = \<lparr>status_code = 200, text_of = u ''{}'',
                json = Some [(u ''id'', u ''p1''), (u ''url'', u ''https://www.notion.so/p1'')]\<rparr>"

text \<open>Clock readings used in the examples.\<close>

definition t0 :: datetime where
  "t0 = \<lparr>year = 2024, month = 3, day = 7, hour = 9, minute = 5, second = 0, microsecond = 0\<rparr>"

definition t1 :: datetime where
  "t1 = \<lparr>year = 2024, month = 3, day = 7, hour = 9, minute = 5, second = 42, microsecond = 17\<rparr>"

definition t2 :: datetime where
  "t2 = \<lparr>year = 2024, month = 3, day = 7, hour = 9, minute = 6, second = 0, microsecond = 0\<rparr>"

section \<open>Basic facts\<close>

lemma u_Nil [simp]: "u [] = []"
  by (simp add: u_def)

lemma u_Cons [simp]: "u (c # cs) = of_char c # u cs"
  by (simp add: u_def)

lemma py_split_nonempty: "sep \<noteq> [] \<Longrightarrow> py_split s sep = Inr (split_from sep [] s)"
  by (simp add: py_split_def)

text \<open>
  The loops written out: each paragraph contributes its own blocks, appended in the order
  of the paragraphs.
\<close>

lemma bullet_loop_eq:
  "bullet_loop blocks lines =
     blocks @ map (\<lambda>line. Block (u ''bulleted_list_item'') (drop 2 (strip line)))
                (filter (\<lambda>line. bullet_prefixed (strip line)) lines)"
  by (induction lines arbitrary: blocks) simp_all

lemma para_step_eq: "para_step blocks para = Inr (blocks @ para_blocks para)"
  by (simp add: para_step_def para_blocks_def py_split_nonempty bullet_loop_eq [of blocks]
      bullet_loop_eq [of "[]"] Let_def)

lemma para_loop_eq: "para_loop blocks paras = Inr (blocks @ concat (map para_blocks paras))"
  by (induction paras arbitrary: blocks) (simp_all add: para_step_eq)

lemma format_notes_as_blocks_eq:
  "format_notes_as_blocks now notes =
     Inr (timestamp_heading now # concat (map para_blocks (paragraphs_of notes)))"
  by (simp add: format_notes_as_blocks_def paragraphs_of_def py_split_nonempty para_loop_eq)

text \<open>The equations that evaluate the formatter on a concrete input.\<close>

lemmas ev = format_notes_as_blocks_eq paragraphs_of_def para_blocks_def para_step_def
  strip_def lstrip_def rstrip_def isspace_def startswith_def bullet_prefixed_def
  lstrip_chars_def rstrip_chars_def strip_chars_def py_split_def py_str_def str_nat.simps
  timestamp_heading_def Let_def lines_of_def strftime_def zpad_def t0_def t1_def t2_def isdigit_def

text \<open>The blocks of one paragraph, by the kind of the paragraph.\<close>

lemma para_blocks_cases:
  "para_blocks para =
     (if strip para = [] then []
      else if bullet_prefixed (strip para) then
        map (\<lambda>line. Block (u ''bulleted_list_item'') (drop 2 (strip line)))
          (filter (\<lambda>line. bullet_prefixed (strip line)) (lines_of para))
      else if startswith (strip para) (u ''#'') then
        [Block (u ''heading_'' @ py_str (min (int (length para) -
                  int (length (lstrip_chars para (u ''#'')))) 3))
           (strip (strip_chars para (u ''#'')))]
      else [Block (u ''paragraph'') (strip para)])"
  by (simp add: para_blocks_def para_step_def py_split_nonempty bullet_loop_eq lines_of_def
      Let_def)

subsection \<open>Stripping twice\<close>

lemma strip_is_strip_with: "strip s = strip_with isspace s"
  by (simp add: strip_def rstrip_def lstrip_def strip_with_def)

lemma strip_hash_is_strip_with: "strip_chars s (u ''#'') = strip_with (\<lambda>c. c = 35) s"
  by (simp add: strip_chars_def rstrip_chars_def lstrip_chars_def strip_with_def)

lemma dropWhile_weaker:
  "(\<And>x. Q x \<Longrightarrow> P x) \<Longrightarrow> dropWhile P (dropWhile Q xs) = dropWhile P xs"
  by (induction xs) auto

lemma dropWhile_rstrip_commute:
  assumes "\<And>x. Q x \<Longrightarrow> P x"
  shows "dropWhile P (rev (dropWhile Q (rev xs))) = rev (dropWhile Q (rev (dropWhile P xs)))"
proof (cases "\<forall>x \<in> set xs. P x")
  case True
  then have 1: "dropWhile P xs = []" by simp
  have "\<forall>x \<in> set (dropWhile Q (rev xs)). P x"
  proof
    fix x
    assume "x \<in> set (dropWhile Q (rev xs))"
    then have "x \<in> set (rev xs)"
      by (rule set_dropWhileD)
    with True show "P x" by simp
  qed
  then have 2: "dropWhile P (rev (dropWhile Q (rev xs))) = []"
    by simp
  show ?thesis by (simp only: 1 2) simp
next
  case False
  then have "\<exists>x \<in> set xs. \<not> P x" by simp
  then have "\<exists>a c b. xs = a @ c # b \<and> \<not> P c \<and> (\<forall>x \<in> set a. \<not> \<not> P x)"
    by (rule split_list_first_prop)
  then obtain a c b where xs: "xs = a @ c # b" and a: "\<forall>x \<in> set a. P x" and c: "\<not> P c"
    by auto
  from c assms have qc: "\<not> Q c" by blast
  have r: "dropWhile Q (rev b @ [c]) = dropWhile Q (rev b) @ [c]"
    using qc by (simp add: dropWhile_append3)
  have r': "rev (dropWhile Q (rev xs)) = a @ c # rev (dropWhile Q (rev b))"
    using qc by (simp add: xs dropWhile_append3)
  have "dropWhile P xs = c # b"
    using a c by (simp add: xs dropWhile_append2)
  moreover have "dropWhile P (a @ c # rev (dropWhile Q (rev b))) = c # rev (dropWhile Q (rev b))"
    using a c by (simp add: dropWhile_append2)
  ultimately show ?thesis
    by (simp add: r r')
qed

lemma strip_with_weaker:
  assumes "\<And>x. Q x \<Longrightarrow> P x"
  shows "strip_with P (strip_with Q s) = strip_with P s"
proof -
  have "dropWhile P (rev (dropWhile Q (rev (dropWhile Q s)))) =
        rev (dropWhile Q (rev (dropWhile P (dropWhile Q s))))"
    using assms by (rule dropWhile_rstrip_commute)
  also have "\<dots> = rev (dropWhile Q (rev (dropWhile P s)))"
    using assms by (simp add: dropWhile_weaker)
  finally have "strip_with P (strip_with Q s) =
      rev (dropWhile P (dropWhile Q (rev (dropWhile P s))))"
    by (simp add: strip_with_def)
  also have "\<dots> = strip_with P s"
    using assms by (simp add: dropWhile_weaker strip_with_def)
  finally show ?thesis .
qed

lemma dropWhile_same_length:
  assumes "length (dropWhile P xs) = length xs"
  shows "dropWhile P xs = xs"
proof -
  have "length (takeWhile P xs) + length (dropWhile P xs) = length xs"
    by (metis length_append takeWhile_dropWhile_id)
  with assms have "takeWhile P xs = []" by simp
  then show ?thesis
    by (metis append_Nil takeWhile_dropWhile_id)
qed

lemma strip_with_fixed:
  "strip_with P s = s \<longleftrightarrow> s = [] \<or> \<not> P (hd s) \<and> \<not> P (last s)"
proof
  assume eq: "strip_with P s = s"
  have "length (strip_with P s) \<le> length (dropWhile P s)"
    unfolding strip_with_def using length_dropWhile_le [of P "rev (dropWhile P s)"] by simp
  with eq have "length (dropWhile P s) = length s"
    using length_dropWhile_le [of P s] by simp
  then have d: "dropWhile P s = s"
    by (rule dropWhile_same_length)
  with eq have "rev (dropWhile P (rev s)) = s"
    by (simp add: strip_with_def)
  then have "dropWhile P (rev s) = rev s"
    by (metis rev_rev_ident)
  then have "rev s = [] \<or> \<not> P (hd (rev s))"
    by (simp only: dropWhile_eq_self_iff)
  moreover from d have "s = [] \<or> \<not> P (hd s)"
    by (simp only: dropWhile_eq_self_iff)
  ultimately show "s = [] \<or> \<not> P (hd s) \<and> \<not> P (last s)"
    by (auto simp add: hd_rev)
next
  assume a: "s = [] \<or> \<not> P (hd s) \<and> \<not> P (last s)"
  then have d: "dropWhile P s = s"
    by (auto simp add: dropWhile_eq_self_iff)
  from a have "rev s = [] \<or> \<not> P (hd (rev s))"
    by (auto simp add: hd_rev)
  then have "dropWhile P (rev s) = rev s"
    by (simp only: dropWhile_eq_self_iff)
  with d show "strip_with P s = s"
    by (simp add: strip_with_def)
qed


lemma heading_text_spec_iff:
  "strip (strip_chars para (u ''#'')) = spec_heading_text para \<longleftrightarrow>
   \<not> startswith (strip (strip_chars para (u ''#''))) (u ''#'') \<and>
   \<not> startswith (rev (strip (strip_chars para (u ''#'')))) (u ''#'')"
proof -
  let ?P = "\<lambda>c. c = 35 \<or> isspace c"
  let ?text = "strip (strip_chars para (u ''#''))"
  have tx: "?text = strip_with isspace (strip_with (\<lambda>c. c = 35) para)"
    by (simp only: strip_is_strip_with strip_hash_is_strip_with)
  have "strip_with ?P ?text = strip_with ?P (strip_with (\<lambda>c. c = 35) para)"
    unfolding tx by (rule strip_with_weaker) simp
  also have "\<dots> = strip_with ?P para"
    by (rule strip_with_weaker) simp
  finally have spec: "spec_heading_text para = strip_with ?P ?text"
    by (simp add: spec_heading_text_def)
  have "strip_with isspace ?text = ?text"
    unfolding tx using strip_with_weaker [of isspace isspace] by simp
  then have ws: "?text = [] \<or> \<not> isspace (hd ?text) \<and> \<not> isspace (last ?text)"
    by (simp only: strip_with_fixed)
  have "?text = spec_heading_text para \<longleftrightarrow> strip_with ?P ?text = ?text"
    unfolding spec by auto
  also have "\<dots> \<longleftrightarrow> ?text = [] \<or> \<not> ?P (hd ?text) \<and> \<not> ?P (last ?text)"
    by (rule strip_with_fixed)
  also have "\<dots> \<longleftrightarrow> ?text = [] \<or> hd ?text \<noteq> 35 \<and> last ?text \<noteq> 35"
    using ws by auto
  also have "\<dots> \<longleftrightarrow> \<not> startswith ?text (u ''#'') \<and> \<not> startswith (rev ?text) (u ''#'')"
  proof (cases ?text rule: rev_cases)
    case Nil
    then show ?thesis by (simp add: startswith_def)
  next
    case (snoc ys y)
    then show ?thesis by (cases ys) (simp_all add: startswith_def)
  qed
  finally show ?thesis .
qed

subsection \<open>The first line, and the request that creates the page\<close>

lemma split_from_newline_first:
  "\<exists>rest. split_from (u ''\<newline>'') cur s = (cur @ takeWhile (\<lambda>c. c \<noteq> 10) s) # rest"
proof (induction s arbitrary: cur)
  case Nil
  then show ?case by simp
next
  case (Cons c cs)
  show ?case
  proof (cases "c = 10")
    case True
    then show ?thesis by (simp add: startswith_def)
  next
    case False
    with Cons [of "cur @ [c]"] show ?thesis by (simp add: startswith_def)
  qed
qed

lemma create_page_sends_post:
  "tags = Some (t # ts) \<Longrightarrow>
   \<exists>outcome rest. create_page_with_notes cfg http now title notes tags =
     (outcome, PostPages \<lparr>parent_database_id = default_database_id cfg, page_title = title,
                           tag_names = t # ts\<rparr> # rest)"
  by (simp add: create_page_with_notes_def Let_def format_notes_as_blocks_eq
      split: option.split)

lemma create_page_default_tags:
  assumes "tags = None \<or> tags = Some []" and "default_tags cfg = Some d"
  shows "\<exists>outcome rest. create_page_with_notes cfg http now title notes tags =
     (outcome, PostPages \<lparr>parent_database_id = default_database_id cfg, page_title = title,
                           tag_names = d\<rparr> # rest)"
proof -
  from assms(1) have "(case tags of Some (t # ts) \<Rightarrow> Inr (t # ts)
            | _ \<Rightarrow> (case default_tags cfg of
                      None \<Rightarrow> Inl (KeyError (u ''default_tags''))
                    | Some d \<Rightarrow> Inr d)) = (Inr d :: error + ustring list)"
    using assms(2) by auto
  then show ?thesis
    by (simp add: create_page_with_notes_def Let_def format_notes_as_blocks_eq
      split: option.split)
qed

subsection \<open>Decimal rendering and the shape of the timestamp\<close>

lemma str_nat_digits: "list_all isdigit (str_nat n)"
proof (induction n rule: str_nat.induct)
  case (1 n)
  show ?case
  proof (cases "n < 10")
    case True
    then show ?thesis by (simp add: str_nat.simps [of n] isdigit_def)
  next
    case False
    have "n mod 10 < 10" by simp
    then have "isdigit (48 + n mod 10)" unfolding isdigit_def by linarith
    with False 1 show ?thesis by (simp add: str_nat.simps [of n])
  qed
qed

lemma length_str_nat_lt10: "n < 10 \<Longrightarrow> length (str_nat n) = 1"
  by (simp add: str_nat.simps [of n])

lemma length_str_nat_lt100: "10 \<le> n \<Longrightarrow> n < 100 \<Longrightarrow> length (str_nat n) = 2"
  by (simp add: str_nat.simps [of n] length_str_nat_lt10)

lemma length_str_nat_lt1000: "100 \<le> n \<Longrightarrow> n < 1000 \<Longrightarrow> length (str_nat n) = 3"
  by (simp add: str_nat.simps [of n] length_str_nat_lt100)

lemma length_str_nat_lt10000: "1000 \<le> n \<Longrightarrow> n < 10000 \<Longrightarrow> length (str_nat n) = 4"
  by (simp add: str_nat.simps [of n] length_str_nat_lt1000)

lemma zpad_digits: "list_all isdigit (zpad w n)"
proof -
  have "list_all isdigit (replicate (w - length (str_nat n)) 48)"
    by (simp add: list_all_iff isdigit_def)
  then show ?thesis
    by (simp add: zpad_def str_nat_digits)
qed

lemma length_zpad2: "n < 100 \<Longrightarrow> length (zpad 2 n) = 2"
  by (cases "n < 10") (simp_all add: zpad_def length_str_nat_lt10 length_str_nat_lt100)

lemma length_zpad4: "1000 \<le> n \<Longrightarrow> n < 10000 \<Longrightarrow> length (zpad 4 n) = 4"
  by (simp add: zpad_def length_str_nat_lt10000)

lemma has_shape_append:
  "has_shape p s \<Longrightarrow> has_shape q t \<Longrightarrow> has_shape (p @ q) (s @ t)"
  by (induction p s rule: has_shape.induct) simp_all

lemma has_shape_digits:
  "list_all isdigit s \<Longrightarrow> has_shape (replicate (length s) CHR ''9'') s"
  by (induction s) simp_all

lemma has_shape_2: "length s = 2 \<Longrightarrow> list_all isdigit s \<Longrightarrow> has_shape ''99'' s"
  using has_shape_digits [of s] by (simp add: numeral_2_eq_2)

lemma has_shape_4: "length s = 4 \<Longrightarrow> list_all isdigit s \<Longrightarrow> has_shape ''9999'' s"
  using has_shape_digits [of s] by (simp add: eval_nat_numeral)

lemma strftime_shape:
  assumes "1000 \<le> year t" "year t \<le> 9999" "month t \<le> 12" "day t \<le> 31" "hour t \<le> 23"
    "minute t \<le> 59"
  shows "has_shape ''9999-99-99 99:99'' (strftime t)"
proof -
  have y: "has_shape ''9999'' (zpad 4 (year t))"
    using assms by (intro has_shape_4 length_zpad4 zpad_digits) simp_all
  have m: "has_shape ''99'' (zpad 2 (month t))"
    using assms by (intro has_shape_2 length_zpad2 zpad_digits) simp_all
  have d: "has_shape ''99'' (zpad 2 (day t))"
    using assms by (intro has_shape_2 length_zpad2 zpad_digits) simp_all
  have h: "has_shape ''99'' (zpad 2 (hour t))"
    using assms by (intro has_shape_2 length_zpad2 zpad_digits) simp_all
  have mi: "has_shape ''99'' (zpad 2 (minute t))"
    using assms by (intro has_shape_2 length_zpad2 zpad_digits) simp_all
  have sep: "has_shape ''-'' (u ''-'')" "has_shape '' '' (u '' '')" "has_shape '':'' (u '':'')"
    by simp_all
  have "has_shape (''9999'' @ ''-'' @ ''99'' @ ''-'' @ ''99'' @ '' '' @ ''99'' @ '':'' @ ''99'')
          (strftime t)"
    unfolding strftime_def
    by (intro has_shape_append y m d h mi sep)
  then show ?thesis by simp
qed

section \<open>Properties of the formatter\<close>

text \<open>
  C1. Whatever the notes, the first block is the heading of type \<open>heading_3\<close> whose text
  is \<open>Created by Claude Code - \<close> followed by the clock reading rendered by \<open>strftime\<close>;
  the blocks after it do not depend on the clock. For a reading of a four-digit year the
  rendering has the shape \<open>YYYY-MM-DD HH:MM\<close>.
\<close>

theorem timestamp_heading_first:
  "(\<exists>rest. \<forall>now. format_notes_as_blocks now notes =
       Inr (Block (u ''heading_3'') (u ''Created by Claude Code - '' @ strftime now) # rest)) \<and>
   (\<forall>now. 1000 \<le> year now \<and> year now \<le> 9999 \<and> month now \<le> 12 \<and> day now \<le> 31 \<and>
       hour now \<le> 23 \<and> minute now \<le> 59 \<longrightarrow>
       has_shape ''9999-99-99 99:99'' (strftime now))"
  by (auto simp add: format_notes_as_blocks_eq timestamp_heading_def strftime_shape)

theorem timestamp_heading_first_witness:
  "format_notes_as_blocks t0 (u ''# Title'') =
     Inr [Block (u ''heading_3'') (u ''Created by Claude Code - 2024-03-07 09:05''),
          Block (u ''heading_1'') (u ''Title'')] \<and>
   has_shape ''9999-99-99 99:99'' (strftime t0)"
proof -
  have valid: "1000 \<le> year t0 \<and> year t0 \<le> 9999 \<and> month t0 \<le> 12 \<and> day t0 \<le> 31 \<and>
       hour t0 \<le> 23 \<and> minute t0 \<le> 59"
    by (simp add: t0_def)
  from timestamp_heading_first [of "u ''# Title''"] valid
  have "has_shape ''9999-99-99 99:99'' (strftime t0)"
    by blast
  moreover have "format_notes_as_blocks t0 (u ''# Title'') =
     Inr [Block (u ''heading_3'') (u ''Created by Claude Code - 2024-03-07 09:05''),
          Block (u ''heading_1'') (u ''Title'')]"
    by (simp add: ev)
  ultimately show ?thesis by simp
qed

text \<open>
  C6. The formatter raises on no input: it always returns a list of blocks. On the empty
  string that list is the timestamp heading alone.
\<close>

theorem formatter_total:
  "(\<exists>blocks. format_notes_as_blocks now notes = Inr blocks) \<and>
   format_notes_as_blocks now (u '''') =
     Inr [Block (u ''heading_3'') (u ''Created by Claude Code - '' @ strftime now)]"
  by (simp add: format_notes_as_blocks_eq timestamp_heading_def paragraphs_of_def para_blocks_def
      para_step_def strip_def lstrip_def rstrip_def)

text \<open>
  C3. For a paragraph whose trimmed form starts with \<open>- \<close> or \<open>* \<close>, the loop body splits
  the trimmed paragraph into lines and appends, for each line that starts with one of the
  two prefixes once trimmed, one \<open>bulleted_list_item\<close> whose text is the trimmed line
  without its first two characters, in the order of the lines; every other line adds
  nothing.
\<close>

theorem list_paragraph_bullets:
  "bullet_prefixed (strip para) \<Longrightarrow>
   para_step blocks para =
     Inr (blocks @ map (\<lambda>line. Block (u ''bulleted_list_item'') (drop 2 (strip line)))
                     (filter (\<lambda>line. bullet_prefixed (strip line))
                        (split_from (u ''\<newline>'') [] (strip para))))"
  by (auto simp add: para_step_def py_split_nonempty bullet_loop_eq bullet_prefixed_def
      startswith_def)

theorem list_paragraph_bullets_witness:
  "bullet_prefixed (strip (u ''- a\<newline>note\<newline>  * b '')) \<and>
   para_step [] (u ''- a\<newline>note\<newline>  * b '') =
     Inr [Block (u ''bulleted_list_item'') (u ''a''), Block (u ''bulleted_list_item'') (u ''b'')]"
proof -
  have b: "bullet_prefixed (strip (u ''- a\<newline>note\<newline>  * b ''))"
    by (simp add: ev)
  from list_paragraph_bullets [OF b, of "[]"] b show ?thesis
    by (simp add: ev)
qed

text \<open>
  The claim C2 as the specification states it fails: the paragraph \<open>- \<close>, newline,
  \<open>foo\<close> is not empty once trimmed and is a list paragraph, but neither of its lines
  starts with a bullet prefix once trimmed (the first is \<open>-\<close> alone), so it adds no block.
\<close>

theorem nonblank_paragraph_without_block:
  "strip (u ''- \<newline>foo'') \<noteq> [] \<and>
   paragraphs_of (u ''- \<newline>foo'') = [u ''- \<newline>foo''] \<and>
   para_blocks (u ''- \<newline>foo'') = [] \<and>
   format_notes_as_blocks t0 (u ''- \<newline>foo'') =
     Inr [Block (u ''heading_3'') (u ''Created by Claude Code - 2024-03-07 09:05'')]"
  by (simp add: ev)

text \<open>
  C2, amended. The blocks after the heading are those of the paragraphs, in order. A
  paragraph adds no block exactly when it is empty once trimmed, or it is a list paragraph
  none of whose lines starts with \<open>- \<close> or \<open>* \<close> once trimmed; every other paragraph
  adds at least one block.
\<close>

theorem paragraph_block_count:
  "format_notes_as_blocks now notes =
     Inr (timestamp_heading now # concat (map para_blocks (paragraphs_of notes))) \<and>
   (para_blocks para = [] \<longleftrightarrow>
      strip para = [] \<or>
      bullet_prefixed (strip para) \<and>
      (\<forall>line \<in> set (lines_of para). \<not> bullet_prefixed (strip line)))"
  by (auto simp add: format_notes_as_blocks_eq para_blocks_cases filter_empty_conv)

theorem paragraph_block_count_witness:
  "para_blocks (u ''  '') = [] \<and> para_blocks (u ''- \<newline>foo'') = [] \<and>
   para_blocks (u ''- a\<newline>foo'') \<noteq> [] \<and> para_blocks (u ''## T'') \<noteq> [] \<and>
   para_blocks (u ''text'') \<noteq> []"
proof -
  have 1: "strip (u ''  '') = []"
    by (simp add: ev)
  have 2: "bullet_prefixed (strip (u ''- \<newline>foo'')) \<and>
      (\<forall>line \<in> set (lines_of (u ''- \<newline>foo'')). \<not> bullet_prefixed (strip line))"
    by (simp add: ev)
  have 3: "strip (u ''- a\<newline>foo'') \<noteq> [] \<and>
      \<not> (\<forall>line \<in> set (lines_of (u ''- a\<newline>foo'')). \<not> bullet_prefixed (strip line))"
    by (simp add: ev)
  have 4: "strip (u ''## T'') \<noteq> [] \<and> \<not> bullet_prefixed (strip (u ''## T''))"
    by (simp add: ev)
  have 5: "strip (u ''text'') \<noteq> [] \<and> \<not> bullet_prefixed (strip (u ''text''))"
    by (simp add: ev)
  show ?thesis
    using paragraph_block_count [of t0 "[]" "u ''  ''"] 1
      paragraph_block_count [of t0 "[]" "u ''- \<newline>foo''"] 2
      paragraph_block_count [of t0 "[]" "u ''- a\<newline>foo''"] 3
      paragraph_block_count [of t0 "[]" "u ''## T''"] 4
      paragraph_block_count [of t0 "[]" "u ''text''"] 5
    by blast
qed

text \<open>
  C4. The level is counted on the paragraph as it was cut out of the notes, not on its
  trimmed form, which the test for a heading uses. A heading paragraph that begins with
  whitespace has no leading \<open>#\<close> of its own: its level is 0 and its block type
  \<open>heading_0\<close>, outside the range 1..3.
\<close>

theorem heading_level_zero:
  "format_notes_as_blocks t0 (u ''a\<newline>\<newline> #x'') =
     Inr [Block (u ''heading_3'') (u ''Created by Claude Code - 2024-03-07 09:05''),
          Block (u ''paragraph'') (u ''a''),
          Block (u ''heading_0'') (u ''#x'')]"
  by (simp add: ev)

text \<open>
  For a heading paragraph that is its own trimmed form the level is the number of leading
  \<open>#\<close> characters, at most 3 and at least 1.
\<close>

lemma heading_level_of_trimmed:
  assumes "strip para = para" and "startswith para (u ''#'')"
  shows "\<exists>k. 1 \<le> k \<and> k \<le> 3 \<and> k = min (length (takeWhile (\<lambda>c. c = 35) para)) 3 \<and>
           para_blocks para =
             [Block (u ''heading_'' @ [48 + k]) (strip (strip_chars para (u ''#'')))]"
proof -
  let ?n = "length (takeWhile (\<lambda>c. c = 35) para)"
  let ?level = "int (length para) - int (length (lstrip_chars para (u ''#'')))"
  from assms(2) obtain cs where para: "para = 35 # cs"
    by (cases para) (simp_all add: startswith_def)
  then have n: "1 \<le> ?n" by simp
  have ne: "para \<noteq> []" and nb: "\<not> bullet_prefixed para"
    using para by (cases cs; simp add: bullet_prefixed_def startswith_def)+
  have "length (takeWhile (\<lambda>c. c = 35) para) + length (dropWhile (\<lambda>c. c = 35) para) =
      length para"
    by (metis length_append takeWhile_dropWhile_id)
  then have lvl: "?level = int ?n"
    by (simp add: lstrip_chars_def)
  have small: "min ?n 3 < 10" by simp
  have "min (int ?n) 3 = int (min ?n 3)"
    by linarith
  then have "py_str (min ?level 3) = py_str (int (min ?n 3))"
    unfolding lvl by (rule arg_cong)
  also have "\<dots> = str_nat (min ?n 3)"
    by (simp add: py_str_def)
  also have "\<dots> = [48 + min ?n 3]"
    using small by (simp only: str_nat.simps [of "min ?n 3"] if_True)
  finally have ty: "py_str (min ?level 3) = [48 + min ?n 3]" .
  have "para_blocks para =
      [Block (u ''heading_'' @ py_str (min ?level 3)) (strip (strip_chars para (u ''#'')))]"
    using assms ne nb by (simp add: para_blocks_cases)
  then have "para_blocks para =
      [Block (u ''heading_'' @ [48 + min ?n 3]) (strip (strip_chars para (u ''#'')))]"
    by (simp only: ty)
  with n show ?thesis
    by (intro exI [of _ "min ?n 3"]) simp
qed

text \<open>
  The claim C5 as the specification states it fails: of the paragraph \<open># #x\<close> the
  formatter keeps \<open>#x\<close>, since it strips the \<open>#\<close> characters first and the whitespace
  afterwards; with all leading \<open>#\<close> characters and whitespace stripped the text is \<open>x\<close>.
\<close>

theorem heading_text_keeps_hash:
  "format_notes_as_blocks t0 (u ''# #x'') =
     Inr [Block (u ''heading_3'') (u ''Created by Claude Code - 2024-03-07 09:05''),
          Block (u ''heading_1'') (u ''#x'')] \<and>
   spec_heading_text (u ''# #x'') = u ''x'' \<and> u ''#x'' \<noteq> u ''x''"
  by (simp add: ev spec_heading_text_def strip_with_def)

text \<open>
  C5, amended. For a heading paragraph that is its own trimmed form, the text of the
  heading is the paragraph with its leading and trailing \<open>#\<close> characters stripped and
  then the leading and trailing whitespace of what is left stripped. It is the paragraph
  stripped of all leading and trailing \<open>#\<close> characters and whitespace exactly when it
  neither begins nor ends with \<open>#\<close>.
\<close>

theorem heading_text_two_steps:
  assumes "strip para = para" and "startswith para (u ''#'')"
  shows "(\<exists>ty. para_step blocks para =
            Inr (blocks @ [Block ty (strip (strip_chars para (u ''#'')))])) \<and>
         (strip (strip_chars para (u ''#'')) = spec_heading_text para \<longleftrightarrow>
            \<not> startswith (strip (strip_chars para (u ''#''))) (u ''#'') \<and>
            \<not> startswith (rev (strip (strip_chars para (u ''#'')))) (u ''#''))"
proof -
  from assms(2) have ne: "para \<noteq> []" and nb: "\<not> bullet_prefixed para"
    by (cases para; cases "tl para"; auto simp add: startswith_def bullet_prefixed_def)+
  with assms have "para_blocks para =
      [Block (u ''heading_'' @ py_str (min (int (length para) -
                  int (length (lstrip_chars para (u ''#'')))) 3))
           (strip (strip_chars para (u ''#'')))]"
    by (simp add: para_blocks_cases)
  then have "\<exists>ty. para_step blocks para =
      Inr (blocks @ [Block ty (strip (strip_chars para (u ''#'')))])"
    by (simp add: para_step_eq)
  then show ?thesis
    using heading_text_spec_iff [of para] by (rule conjI)
qed

theorem heading_text_two_steps_witness:
  "para_step [] (u ''## Title ##'') = Inr [Block (u ''heading_2'') (u ''Title'')] \<and>
   spec_heading_text (u ''## Title ##'') = u ''Title'' \<and>
   para_step [] (u ''# #x'') = Inr [Block (u ''heading_1'') (u ''#x'')] \<and>
   spec_heading_text (u ''# #x'') \<noteq> u ''#x''"
proof -
  have 1: "strip (u ''## Title ##'') = u ''## Title ##''" "startswith (u ''## Title ##'') (u ''#'')"
    by (simp_all add: ev)
  have 2: "strip (u ''# #x'') = u ''# #x''" "startswith (u ''# #x'') (u ''#'')"
    by (simp_all add: ev)
  have 3: "strip (strip_chars (u ''## Title ##'') (u ''#'')) = u ''Title''"
    "strip (strip_chars (u ''# #x'') (u ''#'')) = u ''#x''"
    by (simp_all add: ev)
  have 4: "para_step [] (u ''## Title ##'') = Inr [Block (u ''heading_2'') (u ''Title'')]"
    "para_step [] (u ''# #x'') = Inr [Block (u ''heading_1'') (u ''#x'')]"
    by (simp_all add: ev)
  from heading_text_two_steps [OF 1, of "[]"] heading_text_two_steps [OF 2, of "[]"]
  show ?thesis
    unfolding 3 4 by (simp add: startswith_def)
qed

text \<open>
  Apart from headings, the blocks of a paragraph are those of its trimmed form: only the
  level and the text of a heading are computed on the paragraph as it was cut out.
\<close>

lemma strip_strip: "strip (strip s) = strip s"
  using strip_with_weaker [of isspace isspace s] by (simp add: strip_is_strip_with)

lemma para_blocks_of_trimmed:
  assumes "bullet_prefixed (strip para) \<or> \<not> startswith (strip para) (u ''#'')"
  shows "para_blocks (strip para) = para_blocks para"
  using assms by (auto simp add: para_blocks_cases lines_of_def strip_strip)

text \<open>
  C7. The blocks follow the order of the paragraphs (\<open>format_notes_as_blocks_eq\<close>), but
  exchanging two paragraphs can change the blocks of one of them: the notes \<open>a\<close>, blank
  line, \<open> #x\<close> give a paragraph and a \<open>heading_0\<close> with text \<open>#x\<close>; with the two
  paragraphs exchanged they give a \<open>heading_1\<close> with text \<open>x\<close> and the paragraph.
\<close>

theorem reordering_changes_heading:
  "paragraphs_of (u ''a\<newline>\<newline> #x'') = [u ''a'', u '' #x''] \<and>
   format_notes_as_blocks t0 (u ''a\<newline>\<newline> #x'') =
     Inr [Block (u ''heading_3'') (u ''Created by Claude Code - 2024-03-07 09:05''),
          Block (u ''paragraph'') (u ''a''),
          Block (u ''heading_0'') (u ''#x'')] \<and>
   format_notes_as_blocks t0 (u '' #x'' @ u ''\<newline>\<newline>'' @ u ''a'') =
     Inr [Block (u ''heading_3'') (u ''Created by Claude Code - 2024-03-07 09:05''),
          Block (u ''heading_1'') (u ''x''),
          Block (u ''paragraph'') (u ''a'')]"
  by (simp add: ev)

text \<open>
  The claim C8 as the specification states it fails: the formatter takes the notes alone
  and reads the clock itself, so the same notes give different blocks a minute later.
\<close>

theorem same_text_different_blocks:
  "format_notes_as_blocks t0 (u ''note'') \<noteq> format_notes_as_blocks t2 (u ''note'')"
  by (simp add: ev)

text \<open>
  C8, amended. The result is determined by the notes and by the clock reading that the
  formatter makes, through its rendering to the minute only: two calls on the same notes
  return the same blocks when the two readings render alike, and in any case the same
  blocks after the first.
\<close>

theorem formatter_reads_clock:
  "(strftime now = strftime now' \<longrightarrow>
      format_notes_as_blocks now notes = format_notes_as_blocks now' notes) \<and>
   (\<exists>rest. format_notes_as_blocks now notes = Inr (timestamp_heading now # rest) \<and>
           format_notes_as_blocks now' notes = Inr (timestamp_heading now' # rest))"
  by (simp add: format_notes_as_blocks_eq timestamp_heading_def)

theorem formatter_reads_clock_witness:
  "t0 \<noteq> t1 \<and> strftime t0 = strftime t1 \<and>
   format_notes_as_blocks t0 (u ''note'') = format_notes_as_blocks t1 (u ''note'')"
proof -
  have s: "strftime t0 = strftime t1"
    by (simp add: strftime_def t0_def t1_def)
  have "t0 \<noteq> t1"
    by (simp add: t0_def t1_def)
  with s formatter_reads_clock [of t0 t1 "u ''note''"] show ?thesis
    by blast
qed

section \<open>Properties of page creation\<close>

text \<open>
  C9. When \<open>tags\<close> is omitted, \<open>None\<close> or the empty list and the configuration has
  \<open>default_tags\<close>, the request that creates the page carries the configuration's
  default tags; a non-empty list of tags is carried as given.
\<close>

theorem default_tags_applied:
  "(tags = None \<or> tags = Some [] \<longrightarrow> default_tags cfg = Some d \<longrightarrow>
      (\<exists>outcome rest. create_page_with_notes cfg http now title notes tags =
         (outcome, PostPages \<lparr>parent_database_id = default_database_id cfg, page_title = title,
                               tag_names = d\<rparr> # rest))) \<and>
   (tags = Some (t # ts) \<longrightarrow>
      (\<exists>outcome rest. create_page_with_notes cfg http now title notes tags =
         (outcome, PostPages \<lparr>parent_database_id = default_database_id cfg, page_title = title,
                               tag_names = t # ts\<rparr> # rest)))"
proof (intro conjI impI)
  assume "tags = None \<or> tags = Some []" and "default_tags cfg = Some d"
  then show "\<exists>outcome rest. create_page_with_notes cfg http now title notes tags =
      (outcome, PostPages \<lparr>parent_database_id = default_database_id cfg, page_title = title,
                            tag_names = d\<rparr> # rest)"
    by (rule create_page_default_tags)
next
  assume "tags = Some (t # ts)"
  then show "\<exists>outcome rest. create_page_with_notes cfg http now title notes tags =
      (outcome, PostPages \<lparr>parent_database_id = default_database_id cfg, page_title = title,
                            tag_names = t # ts\<rparr> # rest)"
    by (rule create_page_sends_post)
qed

theorem default_tags_applied_witness:
  "(\<exists>outcome rest. create_page_with_notes cfg0 http_ok t0 (u ''T'') (u ''n'') None =
      (outcome, PostPages \<lparr>parent_database_id = u ''db'', page_title = u ''T'',
                            tag_names = [u ''NOTES'']\<rparr> # rest)) \<and>
   (\<exists>outcome rest. create_page_with_notes cfg0 http_ok t0 (u ''T'') (u ''n'') (Some []) =
      (outcome, PostPages \<lparr>parent_database_id = u ''db'', page_title = u ''T'',
                            tag_names = [u ''NOTES'']\<rparr> # rest)) \<and>
   (\<exists>outcome rest. create_page_with_notes cfg0 http_ok t0 (u ''T'') (u ''n'') (Some [u ''A'', u ''B'']) =
      (outcome, PostPages \<lparr>parent_database_id = u ''db'', page_title = u ''T'',
                            tag_names = [u ''A'', u ''B'']\<rparr> # rest))"
proof -
  have d: "default_tags cfg0 = Some [u ''NOTES'']" "default_database_id cfg0 = u ''db''"
    by (simp_all add: cfg0_def)
  from default_tags_applied [of None cfg0 "[u ''NOTES'']" http_ok t0 "u ''T''" "u ''n''"]
    default_tags_applied [of "Some []" cfg0 "[u ''NOTES'']" http_ok t0 "u ''T''" "u ''n''"]
    default_tags_applied [of "Some [u ''A'', u ''B'']" cfg0 "[]" http_ok t0 "u ''T''" "u ''n''"
       "u ''A''" "[u ''B'']"]
  show ?thesis
    unfolding d by simp
qed

text \<open>
  C10. \<open>quick_note\<close> always sends the request that creates the page, with the tags
  \<open>DAILY\<close> and \<open>PRODUCTIVITY\<close>. The title is the first line of the trimmed content
  when that line is shorter than 100 characters, cut to its first 50 characters followed
  by \<open>...\<close> when it is longer than 50; otherwise it is \<open>Quick Note - \<close> followed by
  the rendering of the clock reading.
\<close>

theorem quick_note_title_and_tags:
  "\<exists>outcome rest. quick_note cfg http now_title now content =
     (outcome,
      PostPages \<lparr>parent_database_id = default_database_id cfg,
                 page_title =
                   (if length (first_line content) < 100
                    then (if 50 < length (first_line content)
                          then take 50 (first_line content) @ u ''...''
                          else first_line content)
                    else u ''Quick Note - '' @ strftime now_title),
                 tag_names = [u ''DAILY'', u ''PRODUCTIVITY'']\<rparr> # rest)"
proof -
  obtain more where lines:
    "split_from (u ''\<newline>'') [] (strip content) = first_line content # more"
    using split_from_newline_first [of "[]" "strip content"] by (auto simp add: first_line_def)
  have sp: "py_split (strip content) (u ''\<newline>'') = Inr (first_line content # more)"
    using lines by (simp add: py_split_def)
  show ?thesis
    unfolding quick_note_def sp
    using create_page_sends_post [of "Some [u ''DAILY'', u ''PRODUCTIVITY'']" "u ''DAILY''"
        "[u ''PRODUCTIVITY'']" cfg http now _ content]
    by (simp add: Let_def)
qed

theorem quick_note_title_and_tags_witness:
  "(\<exists>outcome rest. quick_note cfg0 http_ok t2 t0 (u '' Buy milk\<newline>and eggs'') =
      (outcome, PostPages \<lparr>parent_database_id = u ''db'', page_title = u ''Buy milk'',
                            tag_names = [u ''DAILY'', u ''PRODUCTIVITY'']\<rparr> # rest)) \<and>
   (\<exists>outcome rest. quick_note cfg0 http_ok t2 t0 (replicate 60 120) =
      (outcome, PostPages \<lparr>parent_database_id = u ''db'',
                            page_title = replicate 50 120 @ u ''...'',
                            tag_names = [u ''DAILY'', u ''PRODUCTIVITY'']\<rparr> # rest)) \<and>
   (\<exists>outcome rest. quick_note cfg0 http_ok t2 t0 (replicate 100 120) =
      (outcome, PostPages \<lparr>parent_database_id = u ''db'',
                            page_title = u ''Quick Note - 2024-03-07 09:06'',
                            tag_names = [u ''DAILY'', u ''PRODUCTIVITY'']\<rparr> # rest))"
proof -
  have 1: "first_line (u '' Buy milk\<newline>and eggs'') = u ''Buy milk''"
    by (simp add: first_line_def ev)
  have x: "\<not> isspace 120"
    by (simp add: isspace_def)
  have 2: "first_line (replicate n 120) = replicate n 120" for n
    using x by (simp add: first_line_def strip_def lstrip_def rstrip_def)
  have 3: "strftime t2 = u ''2024-03-07 09:06''"
    by (simp add: ev)
  have 4: "default_database_id cfg0 = u ''db''"
    by (simp add: cfg0_def)
  from quick_note_title_and_tags [of cfg0 http_ok t2 t0 "u '' Buy milk\<newline>and eggs''"]
    quick_note_title_and_tags [of cfg0 http_ok t2 t0 "replicate 60 120"]
    quick_note_title_and_tags [of cfg0 http_ok t2 t0 "replicate 100 120"]
  show ?thesis
    unfolding 1 2 3 4 by simp
qed

end
